theory Spec2Isabelle
  imports Main "HOL-Library.Word" "HOL-Library.Multiset"
begin

section \<open>The wallet service of pkg/wallet/service.go\<close>

subsection \<open>Types (package types)\<close>

text \<open>
  \<open>Money\<close> is Go's \<open>int64\<close>: a 64-bit word whose \<open>+\<close> and \<open>-\<close> wrap around and whose
  comparisons are the signed ones (written with \<open>sint\<close>). Account identifiers are
  \<open>int64\<close> as well. Category, status and phone are Go strings.
\<close>

type_synonym Money = "64 word"
type_synonym PaymentCategory = string
type_synonym PaymentStatus = string
type_synonym Phone = string


definition PaymentStatusFail :: PaymentStatus where
  "PaymentStatusFail = ''FAIL''"

definition PaymentStatusInProgress :: PaymentStatus where
  "PaymentStatusInProgress = ''INPROGRESS''"

record Payment =
  ID :: string
  AccountID :: "64 word"
  Amount :: Money
  Category :: PaymentCategory
  Status :: PaymentStatus

record Account =
  ID :: "64 word"
  Phone :: Phone
  Balance :: Money

record Favorite =
  ID :: string
  AccountID :: "64 word"
  Name :: string
  Amount :: Money
  Category :: PaymentCategory

datatype error =
    ErrPhoneRegistered
  | ErrAmountMustBePositive
  | ErrAccountNotFound
  | ErrNotEnoughBalance
  | ErrPaymentNotFound
  | ErrFavoriteNotFound

text \<open>
  The service holds slices of pointers. Every pointer in a slice comes from its own
  \<open>&types.T{...}\<close> and is appended once, so no two slice elements share an object: the
  slices are lists of records, a pointer into a slice is the element's index, and a write
  through the pointer is a list update at that index.
\<close>

record Service =
  nextAccountID :: "64 word"
  accounts :: "Account list"
  payments :: "Payment list"
  favorites :: "Favorite list"

definition emptyService :: Service where
  "emptyService = \<lparr>nextAccountID = 0, accounts = [], payments = [], favorites = []\<rparr>"

subsection \<open>Accounts\<close>

text \<open>The scan of \<open>RegisterAccount\<close>: is there an account with this phone?\<close>

fun phoneRegistered :: "Account list \<Rightarrow> Phone \<Rightarrow> bool" where
  "phoneRegistered [] phone = False"
| "phoneRegistered (account # rest) phone =
     (if Account.Phone account = phone then True else phoneRegistered rest phone)"

text \<open>
  Every operation returns its Go result together with the service after the call, so
  that what a failing call leaves behind is part of the model.
\<close>

definition RegisterAccount :: "Service \<Rightarrow> Phone \<Rightarrow> (error + Account) \<times> Service" where
  "RegisterAccount s phone =
     (if phoneRegistered (accounts s) phone then (Inl ErrPhoneRegistered, s)
      else
        let s1 = s\<lparr>nextAccountID := nextAccountID s + 1\<rparr>;
            account = \<lparr>Account.ID = nextAccountID s1, Phone = phone, Balance = 0\<rparr>
        in (Inr account, s1\<lparr>accounts := accounts s1 @ [account]\<rparr>))"

text \<open>
  The loop \<open>for _, acc := range s.accounts { if acc.ID == accountID { account = acc; break } }\<close>:
  the position of the first account with the identifier, \<open>None\<close> for the nil pointer.
\<close>

fun findAccount :: "Account list \<Rightarrow> 64 word \<Rightarrow> nat option" where
  "findAccount [] accountID = None"
| "findAccount (acc # rest) accountID =
     (if Account.ID acc = accountID then Some 0
      else map_option Suc (findAccount rest accountID))"

definition credit :: "Account list \<Rightarrow> nat \<Rightarrow> Money \<Rightarrow> Account list" where
  "credit as i amount = as[i := (as ! i)\<lparr>Balance := Balance (as ! i) + amount\<rparr>]"

definition debit :: "Account list \<Rightarrow> nat \<Rightarrow> Money \<Rightarrow> Account list" where
  "debit as i amount = as[i := (as ! i)\<lparr>Balance := Balance (as ! i) - amount\<rparr>]"

definition Deposit :: "Service \<Rightarrow> 64 word \<Rightarrow> Money \<Rightarrow> error option \<times> Service" where
  "Deposit s accountID amount =
     (if sint amount \<le> 0 then (Some ErrAmountMustBePositive, s)
      else case findAccount (accounts s) accountID of
        None \<Rightarrow> (Some ErrAccountNotFound, s)
      | Some i \<Rightarrow> (None, s\<lparr>accounts := credit (accounts s) i amount\<rparr>))"

subsection \<open>Payments\<close>

text \<open>
  \<open>Pay\<close> draws the payment's identifier from \<open>uuid.New().String()\<close>, a library outside
  the repository: the drawn string is the last argument.
\<close>

definition Pay ::
  "Service \<Rightarrow> 64 word \<Rightarrow> Money \<Rightarrow> PaymentCategory \<Rightarrow> string \<Rightarrow> (error + Payment) \<times> Service" where
  "Pay s accountID amount category paymentID =
     (if sint amount \<le> 0 then (Inl ErrAmountMustBePositive, s)
      else case findAccount (accounts s) accountID of
        None \<Rightarrow> (Inl ErrAccountNotFound, s)
      | Some i \<Rightarrow>
          if sint (Balance (accounts s ! i)) < sint amount then (Inl ErrNotEnoughBalance, s)
          else
            let payment = \<lparr>Payment.ID = paymentID, AccountID = accountID, Amount = amount,
                             Category = category, Status = PaymentStatusInProgress\<rparr>
            in (Inr payment,
                s\<lparr>accounts := debit (accounts s) i amount,
                   payments := payments s @ [payment]\<rparr>))"

definition FindAccountByID :: "Service \<Rightarrow> 64 word \<Rightarrow> error + nat" where
  "FindAccountByID s accountID =
     (case findAccount (accounts s) accountID of
        None \<Rightarrow> Inl ErrAccountNotFound
      | Some i \<Rightarrow> Inr i)"

fun findPayment :: "Payment list \<Rightarrow> string \<Rightarrow> nat option" where
  "findPayment [] paymentID = None"
| "findPayment (payment # rest) paymentID =
     (if Payment.ID payment = paymentID then Some 0
      else map_option Suc (findPayment rest paymentID))"

definition FindPaymentByID :: "Service \<Rightarrow> string \<Rightarrow> error + nat" where
  "FindPaymentByID s paymentID =
     (case findPayment (payments s) paymentID of
        None \<Rightarrow> Inl ErrPaymentNotFound
      | Some k \<Rightarrow> Inr k)"

definition Reject :: "Service \<Rightarrow> string \<Rightarrow> error option \<times> Service" where
  "Reject s paymentID =
     (case FindPaymentByID s paymentID of
        Inl err \<Rightarrow> (Some err, s)
      | Inr k \<Rightarrow>
          (case FindAccountByID s (Payment.AccountID (payments s ! k)) of
             Inl err \<Rightarrow> (Some err, s)
           | Inr i \<Rightarrow>
               (None,
                s\<lparr>payments := (payments s)[k := (payments s ! k)\<lparr>Status := PaymentStatusFail\<rparr>],
                   accounts := credit (accounts s) i (Payment.Amount (payments s ! k))\<rparr>)))"

definition Repeat :: "Service \<Rightarrow> string \<Rightarrow> string \<Rightarrow> (error + Payment) \<times> Service" where
  "Repeat s paymentID newID =
     (case FindPaymentByID s paymentID of
        Inl err \<Rightarrow> (Inl err, s)
      | Inr k \<Rightarrow>
          (case FindAccountByID s (Payment.AccountID (payments s ! k)) of
             Inl err \<Rightarrow> (Inl err, s)
           | Inr i \<Rightarrow>
               if sint (Payment.Amount (payments s ! k)) > sint (Balance (accounts s ! i))
               then (Inl ErrNotEnoughBalance, s)
               else Pay s (Account.ID (accounts s ! i)) (Payment.Amount (payments s ! k))
                      (Payment.Category (payments s ! k)) newID))"

definition FavoritePayment :: "Service \<Rightarrow> string \<Rightarrow> string \<Rightarrow> string \<Rightarrow> (error + Favorite) \<times> Service" where
  "FavoritePayment s paymentID name favoriteID =
     (case FindPaymentByID s paymentID of
        Inl err \<Rightarrow> (Inl err, s)
      | Inr k \<Rightarrow>
          let favorite = \<lparr>Favorite.ID = favoriteID,
                            AccountID = Payment.AccountID (payments s ! k),
                            Name = name,
                            Amount = Payment.Amount (payments s ! k),
                            Category = Payment.Category (payments s ! k)\<rparr>
          in (Inr favorite, s\<lparr>favorites := favorites s @ [favorite]\<rparr>))"

fun findFavorite :: "Favorite list \<Rightarrow> string \<Rightarrow> nat option" where
  "findFavorite [] favoriteID = None"
| "findFavorite (favorite # rest) favoriteID =
     (if Favorite.ID favorite = favoriteID then Some 0
      else map_option Suc (findFavorite rest favoriteID))"

definition FindFavoriteByID :: "Service \<Rightarrow> string \<Rightarrow> error + nat" where
  "FindFavoriteByID s favoriteID =
     (case findFavorite (favorites s) favoriteID of
        None \<Rightarrow> Inl ErrFavoriteNotFound
      | Some f \<Rightarrow> Inr f)"

definition PayFromFavorite :: "Service \<Rightarrow> string \<Rightarrow> string \<Rightarrow> (error + Payment) \<times> Service" where
  "PayFromFavorite s favoriteID newID =
     (case FindFavoriteByID s favoriteID of
        Inl err \<Rightarrow> (Inl err, s)
      | Inr f \<Rightarrow>
          (case FindAccountByID s (Favorite.AccountID (favorites s ! f)) of
             Inl err \<Rightarrow> (Inl err, s)
           | Inr i \<Rightarrow>
               if sint (Favorite.Amount (favorites s ! f)) > sint (Balance (accounts s ! i))
               then (Inl ErrNotEnoughBalance, s)
               else Pay s (Account.ID (accounts s ! i)) (Favorite.Amount (favorites s ! f))
                      (Favorite.Category (favorites s ! f)) newID))"

subsection \<open>Aggregation over the payments\<close>

text \<open>
  The body of one goroutine of \<open>SumPayments\<close>: the loop
  \<open>for j := lowerEnd; j < higherEnd; j++\<close> with its break at \<open>j > len(s.payments)-1\<close>.
  Indices are Go \<open>int\<close>s; \<open>len - 1\<close> is \<open>-1\<close> on the empty slice, so they are integers
  here, not naturals. The read \<open>s.payments[j]\<close> is only reached with \<open>j\<close> below the length,
  and \<open>j\<close> starts at a product of non-negative numbers.
\<close>

function sumWorker :: "Payment list \<Rightarrow> int \<Rightarrow> int \<Rightarrow> Money \<Rightarrow> Money" where
  "sumWorker ps j higherEnd partialSum =
     (if j < higherEnd then
        (if j > int (length ps) - 1 then partialSum
         else sumWorker ps (j + 1) higherEnd (partialSum + Payment.Amount (ps ! nat j)))
      else partialSum)"
  by pat_completeness auto
termination
  by (relation "measure (\<lambda>(ps, j, higherEnd, partialSum). nat (higherEnd - j))") auto

text \<open>
  The goroutines add their partial sums to \<open>sum\<close> under the mutex, in the order in which
  they get the lock; \<open>wg.Wait()\<close> lets every one of them finish. The argument \<open>order\<close>
  is that order: the iteration numbers \<open>0 .. goroutines-1\<close>, each once, in any permutation.
  The index arithmetic is that of unbounded integers: every product the loop forms is
  below the number of payments plus the number of goroutines, far from the limit of a
  64-bit \<open>int\<close> for any slice and any number of goroutines a process can hold.
\<close>

definition SumPayments :: "Service \<Rightarrow> int \<Rightarrow> nat list \<Rightarrow> Money" where
  "SumPayments s goroutines order =
     (let goroutines = (if goroutines < 1 then 1 else goroutines);
          paysPerRoutine = int (length (payments s)) div goroutines + 1
      in fold (\<lambda>iteration sum.
                 sum + sumWorker (payments s) (int iteration * paysPerRoutine)
                         (int iteration * paysPerRoutine + paysPerRoutine) 0)
           order 0)"

definition everyWorkerOnce :: "int \<Rightarrow> nat list \<Rightarrow> bool" where
  "everyWorkerOnce goroutines order =
     (mset order = mset [0 ..< nat (if goroutines < 1 then 1 else goroutines)])"

function filterWorker :: "Payment list \<Rightarrow> 64 word \<Rightarrow> int \<Rightarrow> int \<Rightarrow> Payment list \<Rightarrow> Payment list" where
  "filterWorker ps accountID j higherEnd partialPayments =
     (if j < higherEnd then
        (if j > int (length ps) - 1 then partialPayments
         else filterWorker ps accountID (j + 1) higherEnd
                (if Payment.AccountID (ps ! nat j) = accountID
                 then partialPayments @ [ps ! nat j] else partialPayments))
      else partialPayments)"
  by pat_completeness auto
termination
  by (relation "measure (\<lambda>(ps, accountID, j, higherEnd, partialPayments). nat (higherEnd - j))") auto

definition FilterPayments :: "Service \<Rightarrow> 64 word \<Rightarrow> int \<Rightarrow> nat list \<Rightarrow> error + Payment list" where
  "FilterPayments s accountID goroutines order =
     (case FindAccountByID s accountID of
        Inl err \<Rightarrow> Inl err
      | Inr _ \<Rightarrow>
          let goroutines = (if goroutines < 1 then 1 else goroutines);
              paysPerRoutine = int (length (payments s)) div goroutines + 1
          in Inr (fold (\<lambda>iteration found.
                          found @ filterWorker (payments s) accountID (int iteration * paysPerRoutine)
                                    (int iteration * paysPerRoutine + paysPerRoutine) [])
                    order []))"







subsection \<open>Sequences of calls\<close>

text \<open>The core operations as calls, and the service after a call, failed or not.\<close>

datatype call =
    RegisterAccountCall Phone
  | DepositCall "64 word" Money
  | PayCall "64 word" Money PaymentCategory string
  | RejectCall string
  | RepeatCall string string
  | FavoritePaymentCall string string string
  | PayFromFavoriteCall string string

fun exec :: "Service \<Rightarrow> call \<Rightarrow> Service" where
  "exec s (RegisterAccountCall phone) = snd (RegisterAccount s phone)"
| "exec s (DepositCall accountID amount) = snd (Deposit s accountID amount)"
| "exec s (PayCall accountID amount category paymentID) =
     snd (Pay s accountID amount category paymentID)"
| "exec s (RejectCall paymentID) = snd (Reject s paymentID)"
| "exec s (RepeatCall paymentID newID) = snd (Repeat s paymentID newID)"
| "exec s (FavoritePaymentCall paymentID name favoriteID) =
     snd (FavoritePayment s paymentID name favoriteID)"
| "exec s (PayFromFavoriteCall favoriteID newID) = snd (PayFromFavorite s favoriteID newID)"

text \<open>
  Deposits, payments and rejections on one account, every one of which has to succeed:
  \<open>applyOps\<close> is \<open>None\<close> as soon as a call returns an error.
\<close>

datatype ledgerOp =
    DepositOp Money
  | PayOp Money PaymentCategory string
  | RejectOp string

fun applyOp :: "64 word \<Rightarrow> Service \<Rightarrow> ledgerOp \<Rightarrow> Service option" where
  "applyOp a s (DepositOp amount) =
     (case Deposit s a amount of (None, s') \<Rightarrow> Some s' | (Some err, s') \<Rightarrow> None)"
| "applyOp a s (PayOp amount category paymentID) =
     (case Pay s a amount category paymentID of (Inr p, s') \<Rightarrow> Some s' | (Inl err, s') \<Rightarrow> None)"
| "applyOp a s (RejectOp paymentID) =
     (case Reject s paymentID of (None, s') \<Rightarrow> Some s' | (Some err, s') \<Rightarrow> None)"

fun applyOps :: "64 word \<Rightarrow> Service \<Rightarrow> ledgerOp list \<Rightarrow> Service option" where
  "applyOps a s [] = Some s"
| "applyOps a s (x # ops) =
     (case applyOp a s x of None \<Rightarrow> None | Some s' \<Rightarrow> applyOps a s' ops)"

text \<open>
  The sums the balance is compared with, read off the sequence of calls alone: what was
  deposited, what was paid, what was paid by payments no call in the sequence rejects, and
  what the rejections refer to, once per rejecting call (the amount is that of the first
  payment made so far under the rejected identifier).
\<close>

fun deposited :: "ledgerOp list \<Rightarrow> Money" where
  "deposited [] = 0"
| "deposited (DepositOp amount # ops) = amount + deposited ops"
| "deposited (x # ops) = deposited ops"

fun paid :: "ledgerOp list \<Rightarrow> Money" where
  "paid [] = 0"
| "paid (PayOp amount category paymentID # ops) = amount + paid ops"
| "paid (x # ops) = paid ops"

fun rejectedIDs :: "ledgerOp list \<Rightarrow> string list" where
  "rejectedIDs [] = []"
| "rejectedIDs (RejectOp paymentID # ops) = paymentID # rejectedIDs ops"
| "rejectedIDs (x # ops) = rejectedIDs ops"

fun paidOutside :: "string list \<Rightarrow> ledgerOp list \<Rightarrow> Money" where
  "paidOutside rejected [] = 0"
| "paidOutside rejected (PayOp amount category paymentID # ops) =
     (if paymentID \<in> set rejected then 0 else amount) + paidOutside rejected ops"
| "paidOutside rejected (x # ops) = paidOutside rejected ops"

definition paidNeverRejected :: "ledgerOp list \<Rightarrow> Money" where
  "paidNeverRejected ops = paidOutside (rejectedIDs ops) ops"

fun refundedFrom :: "(string \<times> Money) list \<Rightarrow> ledgerOp list \<Rightarrow> Money" where
  "refundedFrom made [] = 0"
| "refundedFrom made (DepositOp amount # ops) = refundedFrom made ops"
| "refundedFrom made (PayOp amount category paymentID # ops) =
     refundedFrom (made @ [(paymentID, amount)]) ops"
| "refundedFrom made (RejectOp paymentID # ops) =
     (case map_of made paymentID of None \<Rightarrow> 0 | Some amount \<Rightarrow> amount) + refundedFrom made ops"

definition refunded :: "ledgerOp list \<Rightarrow> Money" where
  "refunded ops = refundedFrom [] ops"

text \<open>The identifiers and amounts of the payments a service holds, in their order.\<close>

definition made :: "Payment list \<Rightarrow> (string \<times> Money) list" where
  "made ps = map (\<lambda>p. (Payment.ID p, Payment.Amount p)) ps"

subsection \<open>States of the tests\<close>

text \<open>
  The service that \<open>addAccount(defaultTestAccount)\<close> of service_test.go builds: one account
  registered, a deposit of 10_000_00, one payment of 1_000_00 in category auto. The
  payment's identifier stands for the one the library drew.
\<close>

definition defaultTestService :: Service where
  "defaultTestService =
     exec (exec (exec emptyService (RegisterAccountCall ''+992000000001''))
             (DepositCall 1 1000000)) (PayCall 1 100000 ''auto'' ''p1'')"

text \<open>The same service after \<open>Reject\<close> of its payment, as \<open>TestService_Reject_success\<close> expects it.\<close>

definition rejectedTestService :: Service where
  "rejectedTestService =
     \<lparr>nextAccountID = 1,
      accounts = [\<lparr>Account.ID = 1, Phone = ''+992000000001'', Balance = 1000000\<rparr>],
      payments = [\<lparr>Payment.ID = ''p1'', AccountID = 1, Amount = 100000, Category = ''auto'',
                   Status = PaymentStatusFail\<rparr>],
      favorites = []\<rparr>"

text \<open>
  A service whose only payment names an account that does not exist, as \<open>Import\<close> leaves
  it when the payments dump holds a payment of an account the accounts dump lacks.
\<close>

definition orphanService :: Service where
  "orphanService =
     \<lparr>nextAccountID = 1,
      accounts = [\<lparr>Account.ID = 1, Phone = ''+992000000001'', Balance = 0\<rparr>],
      payments = [\<lparr>Payment.ID = ''p7'', AccountID = 7, Amount = 100, Category = ''auto'',
                   Status = PaymentStatusInProgress\<rparr>],
      favorites = []\<rparr>"

text \<open>
  The service that \<open>fillData\<close> of service_test.go builds: three accounts and eleven
  payments with the amounts 1 to 11. The identifiers stand for the ones the library drew.
\<close>

definition fillData :: Service where
  "fillData = foldl exec emptyService
     [RegisterAccountCall ''+992000000001'', DepositCall 1 1000000,
      PayCall 1 1 ''food'' ''p01'', PayCall 1 2 ''mobile'' ''p02'',
      PayCall 1 3 ''transport'' ''p03'', PayCall 1 4 ''mobile'' ''p04'',
      PayCall 1 5 ''food'' ''p05'', PayCall 1 6 ''auto'' ''p06'', PayCall 1 7 ''bank'' ''p07'',
      RegisterAccountCall ''+992000000002'', DepositCall 2 2000000,
      PayCall 2 8 ''mobile'' ''p08'',
      RegisterAccountCall ''+992000000003'', DepositCall 3 3000000,
      PayCall 3 9 ''auto'' ''p09'', PayCall 3 10 ''food'' ''p10'', PayCall 3 11 ''mobile'' ''p11'']"

text \<open>The empty service after the registration of one account.\<close>

definition registeredService :: Service where
  "registeredService = snd (RegisterAccount emptyService ''+992000000001'')"

text \<open>
  A service the core calls build whose account holds the largest \<open>int64\<close> amount while
  a payment of 1 is still to be rejected.
\<close>

definition overflowService :: Service where
  "overflowService = foldl exec emptyService
     [RegisterAccountCall ''+992000000001'', DepositCall 1 9223372036854775807,
      PayCall 1 1 ''auto'' ''p1'', DepositCall 1 1]"


section \<open>Lookups\<close>

lemma findAccount_None: "findAccount as a = None \<longleftrightarrow> (\<forall>acc \<in> set as. Account.ID acc \<noteq> a)"
  by (induction as) auto

lemma findAccount_Some:
  "findAccount as a = Some i \<Longrightarrow>
     i < length as \<and> Account.ID (as ! i) = a \<and> (\<forall>j < i. Account.ID (as ! j) \<noteq> a)"
proof (induction as arbitrary: i)
  case Nil
  then show ?case by simp
next
  case (Cons acc rest)
  show ?case
  proof (cases "Account.ID acc = a")
    case True
    with Cons.prems show ?thesis by simp
  next
    case False
    with Cons.prems obtain i' where i': "findAccount rest a = Some i'" "i = Suc i'"
      by auto
    from Cons.IH [OF i'(1)] False i'(2) show ?thesis
      by (auto simp: less_Suc_eq_0_disj)
  qed
qed


lemma findPayment_Some:
  "findPayment ps pid = Some k \<Longrightarrow>
     k < length ps \<and> Payment.ID (ps ! k) = pid \<and> (\<forall>j < k. Payment.ID (ps ! j) \<noteq> pid)"
proof (induction ps arbitrary: k)
  case Nil
  then show ?case by simp
next
  case (Cons p rest)
  show ?case
  proof (cases "Payment.ID p = pid")
    case True
    with Cons.prems show ?thesis by simp
  next
    case False
    with Cons.prems obtain k' where k': "findPayment rest pid = Some k'" "k = Suc k'"
      by auto
    from Cons.IH [OF k'(1)] False k'(2) show ?thesis
      by (auto simp: less_Suc_eq_0_disj)
  qed
qed

lemma phoneRegistered_iff:
  "phoneRegistered as phone \<longleftrightarrow> (\<exists>acc \<in> set as. Account.Phone acc = phone)"
  by (induction as) auto

lemma findAccount_eq_Some:
  "i < length as \<Longrightarrow> Account.ID (as ! i) = a \<Longrightarrow> \<forall>j < i. Account.ID (as ! j) \<noteq> a \<Longrightarrow>
     findAccount as a = Some i"
proof (induction as arbitrary: i)
  case Nil
  then show ?case by simp
next
  case (Cons acc rest)
  show ?case
  proof (cases i)
    case 0
    with Cons.prems show ?thesis by simp
  next
    case (Suc i')
    with Cons.prems have "Account.ID acc \<noteq> a" by auto
    moreover have "findAccount rest a = Some i'"
      using Cons.prems Suc by (intro Cons.IH) auto
    ultimately show ?thesis using Suc by simp
  qed
qed

lemma findPayment_eq_Some:
  "k < length ps \<Longrightarrow> Payment.ID (ps ! k) = pid \<Longrightarrow> \<forall>j < k. Payment.ID (ps ! j) \<noteq> pid \<Longrightarrow>
     findPayment ps pid = Some k"
proof (induction ps arbitrary: k)
  case Nil
  then show ?case by simp
next
  case (Cons p rest)
  show ?case
  proof (cases k)
    case 0
    with Cons.prems show ?thesis by simp
  next
    case (Suc k')
    with Cons.prems have "Payment.ID p \<noteq> pid" by auto
    moreover have "findPayment rest pid = Some k'"
      using Cons.prems Suc by (intro Cons.IH) auto
    ultimately show ?thesis using Suc by simp
  qed
qed

text \<open>A lookup by identifier sees the identifiers only, and no operation writes them.\<close>

lemma findAccount_cong_ids:
  "map Account.ID as = map Account.ID bs \<Longrightarrow> findAccount as a = findAccount bs a"
proof (induction as arbitrary: bs)
  case Nil
  then show ?case by simp
next
  case (Cons acc rest)
  then obtain b bs' where "bs = b # bs'" by (cases bs) auto
  with Cons show ?case by auto
qed

lemma findPayment_cong_ids:
  "map Payment.ID ps = map Payment.ID qs \<Longrightarrow> findPayment ps pid = findPayment qs pid"
proof (induction ps arbitrary: qs)
  case Nil
  then show ?case by simp
next
  case (Cons p rest)
  then obtain q qs' where "qs = q # qs'" by (cases qs) auto
  with Cons show ?case by auto
qed

lemma map_ID_credit [simp]: "map Account.ID (credit as i amount) = map Account.ID as"
  by (cases "i < length as")
    (simp_all add: credit_def map_update list_update_same_conv list_update_beyond)

lemma map_ID_debit [simp]: "map Account.ID (debit as i amount) = map Account.ID as"
  by (cases "i < length as")
    (simp_all add: debit_def map_update list_update_same_conv list_update_beyond)

lemma findAccount_credit [simp]: "findAccount (credit as i amount) a = findAccount as a"
  by (rule findAccount_cong_ids) simp

lemma findAccount_debit [simp]: "findAccount (debit as i amount) a = findAccount as a"
  by (rule findAccount_cong_ids) simp

lemma length_credit [simp]: "length (credit as i amount) = length as"
  by (simp add: credit_def)

lemma length_debit [simp]: "length (debit as i amount) = length as"
  by (simp add: debit_def)

lemma Balance_credit:
  "i < length as \<Longrightarrow>
     Balance (credit as i amount ! j) = (if j = i then Balance (as ! i) + amount else Balance (as ! j))"
  by (simp add: credit_def nth_list_update)

lemma Balance_debit:
  "i < length as \<Longrightarrow>
     Balance (debit as i amount ! j) = (if j = i then Balance (as ! i) - amount else Balance (as ! j))"
  by (simp add: debit_def nth_list_update)

lemma findPayment_set_status [simp]:
  "findPayment (ps[k := (ps ! k)\<lparr>Status := st\<rparr>]) pid = findPayment ps pid"
  by (rule findPayment_cong_ids)
    (cases "k < length ps", simp_all add: map_update list_update_same_conv list_update_beyond)

lemma defaultTestService_eq:
  "defaultTestService =
     \<lparr>nextAccountID = 1,
      accounts = [\<lparr>Account.ID = 1, Phone = ''+992000000001'', Balance = 900000\<rparr>],
      payments = [\<lparr>Payment.ID = ''p1'', AccountID = 1, Amount = 100000, Category = ''auto'',
                   Status = PaymentStatusInProgress\<rparr>],
      favorites = []\<rparr>"
  by (simp add: defaultTestService_def emptyService_def RegisterAccount_def Deposit_def Pay_def
      credit_def debit_def Let_def)

section \<open>RegisterAccount\<close>

text \<open>
  Claim C7. When some account already has the phone, \<open>RegisterAccount\<close> returns
  \<open>ErrPhoneRegistered\<close> and the service is the one it was called on: the counter
  \<open>nextAccountID\<close> is not incremented and no account is appended. When no account has the
  phone, the counter goes up by one and an account with the new counter value as
  identifier, the phone and balance zero is appended and returned.
\<close>

theorem register_account:
  "((\<exists>acc \<in> set (accounts s). Account.Phone acc = phone) \<longrightarrow>
      RegisterAccount s phone = (Inl ErrPhoneRegistered, s) \<and>
      nextAccountID (snd (RegisterAccount s phone)) = nextAccountID s \<and>
      accounts (snd (RegisterAccount s phone)) = accounts s) \<and>
   ((\<forall>acc \<in> set (accounts s). Account.Phone acc \<noteq> phone) \<longrightarrow>
      RegisterAccount s phone =
        (Inr \<lparr>Account.ID = nextAccountID s + 1, Phone = phone, Balance = 0\<rparr>,
         s\<lparr>nextAccountID := nextAccountID s + 1,
           accounts := accounts s @ [\<lparr>Account.ID = nextAccountID s + 1, Phone = phone, Balance = 0\<rparr>]\<rparr>))"
  by (auto simp: RegisterAccount_def phoneRegistered_iff Let_def)

theorem register_account_witness:
  "RegisterAccount defaultTestService ''+992000000001'' = (Inl ErrPhoneRegistered, defaultTestService) \<and>
   RegisterAccount defaultTestService ''+992000000002'' =
     (Inr \<lparr>Account.ID = 2, Phone = ''+992000000002'', Balance = 0\<rparr>,
      defaultTestService\<lparr>nextAccountID := 2,
        accounts := accounts defaultTestService @
          [\<lparr>Account.ID = 2, Phone = ''+992000000002'', Balance = 0\<rparr>]\<rparr>)"
  using register_account [of defaultTestService "''+992000000001''"]
    register_account [of defaultTestService "''+992000000002''"]
  by (simp add: defaultTestService_eq)

section \<open>Pay\<close>

text \<open>
  Claim C8. For an amount that is zero or negative, \<open>Pay\<close> returns
  \<open>ErrAmountMustBePositive\<close> and the service is the one it was called on: every balance
  is what it was and no payment is appended.
\<close>

theorem pay_nonpositive:
  assumes "sint amount \<le> 0"
  shows "Pay s accountID amount category paymentID = (Inl ErrAmountMustBePositive, s) \<and>
         map Balance (accounts (snd (Pay s accountID amount category paymentID)))
           = map Balance (accounts s) \<and>
         payments (snd (Pay s accountID amount category paymentID)) = payments s"
  using assms by (simp add: Pay_def)

theorem pay_nonpositive_witness:
  "sint (- 5 :: Money) \<le> 0 \<and>
   Pay defaultTestService 1 (- 5) ''auto'' ''p2'' = (Inl ErrAmountMustBePositive, defaultTestService)"
proof -
  have h: "sint (- 5 :: Money) \<le> 0" by simp
  from pay_nonpositive [OF h] h show ?thesis by simp
qed

section \<open>Reject\<close>

lemma overflowService_eq:
  "overflowService =
     \<lparr>nextAccountID = 1,
      accounts = [\<lparr>Account.ID = 1, Phone = ''+992000000001'', Balance = 9223372036854775807\<rparr>],
      payments = [\<lparr>Payment.ID = ''p1'', AccountID = 1, Amount = 1, Category = ''auto'',
                   Status = PaymentStatusInProgress\<rparr>],
      favorites = []\<rparr>"
  by (simp add: overflowService_def emptyService_def RegisterAccount_def Deposit_def Pay_def
      credit_def debit_def Let_def)

lemma sint_add_no_wrap:
  fixes b m :: Money
  assumes "- (2 ^ 63) \<le> sint b + sint m" "sint b + sint m < 2 ^ 63"
  shows "sint (b + m) = sint b + sint m"
proof -
  have "signed_take_bit 63 (sint b + sint m) = sint b + sint m"
    using assms by (intro signed_take_bit_int_eq_self) simp_all
  then show ?thesis by (simp add: sint_word_ariths)
qed

lemma sint_add_twice_no_wrap:
  fixes b m :: Money
  assumes "- (2 ^ 63) \<le> sint b + 2 * sint m" "sint b + 2 * sint m < 2 ^ 63"
  shows "sint (b + 2 * m) = sint b + 2 * sint m"
proof -
  have lo: "- (2 ^ 63) \<le> sint b" using sint_ge [of b] by simp
  have hi: "sint b < 2 ^ 63" using sint_lt [of b] by simp
  have "- (2 ^ 63) \<le> sint b + sint m" "sint b + sint m < 2 ^ 63"
    using assms lo hi by linarith+
  then have one: "sint (b + m) = sint b + sint m" by (rule sint_add_no_wrap)
  have two: "sint ((b + m) + m) = sint (b + m) + sint m"
    using assms by (intro sint_add_no_wrap) (simp_all add: one)
  have "b + 2 * m = (b + m) + m" by simp
  then have "sint (b + 2 * m) = sint ((b + m) + m)" by (simp only:)
  also have "\<dots> = sint b + sint m + sint m" by (simp only: two one)
  finally show ?thesis by simp
qed

text \<open>
  Claim C4, as amended. When the service has a payment with the identifier (\<open>k\<close> the first
  such) and an account with that payment's account identifier (\<open>i\<close> the first such),
  \<open>Reject\<close> succeeds, sets the payment's status to FAIL and adds the payment's amount to
  the account's balance in \<open>int64\<close> arithmetic, whatever the status was before: the
  balance goes up by exactly the amount whenever balance plus amount is an \<open>int64\<close>,
  and wraps around otherwise. A second \<open>Reject\<close> of the same payment succeeds again and
  adds the amount again: the balance is then up by twice the amount, exactly so whenever
  balance plus twice the amount is an \<open>int64\<close>.
\<close>

theorem reject_refunds:
  assumes "k < length (payments s)"
    and "Payment.ID (payments s ! k) = paymentID"
    and "\<forall>j < k. Payment.ID (payments s ! j) \<noteq> paymentID"
    and "i < length (accounts s)"
    and "Account.ID (accounts s ! i) = Payment.AccountID (payments s ! k)"
    and "\<forall>j < i. Account.ID (accounts s ! j) \<noteq> Payment.AccountID (payments s ! k)"
  shows "Reject s paymentID =
           (None, s\<lparr>payments := (payments s)[k := (payments s ! k)\<lparr>Status := PaymentStatusFail\<rparr>],
                    accounts := credit (accounts s) i (Payment.Amount (payments s ! k))\<rparr>) \<and>
         Payment.Status (payments (snd (Reject s paymentID)) ! k) = PaymentStatusFail \<and>
         Balance (accounts (snd (Reject s paymentID)) ! i)
           = Balance (accounts s ! i) + Payment.Amount (payments s ! k) \<and>
         (- (2 ^ 63) \<le> sint (Balance (accounts s ! i)) + sint (Payment.Amount (payments s ! k)) \<and>
          sint (Balance (accounts s ! i)) + sint (Payment.Amount (payments s ! k)) < 2 ^ 63 \<longrightarrow>
            sint (Balance (accounts (snd (Reject s paymentID)) ! i))
              = sint (Balance (accounts s ! i)) + sint (Payment.Amount (payments s ! k))) \<and>
         fst (Reject (snd (Reject s paymentID)) paymentID) = None \<and>
         Balance (accounts (snd (Reject (snd (Reject s paymentID)) paymentID)) ! i)
           = Balance (accounts s ! i) + 2 * Payment.Amount (payments s ! k) \<and>
         (- (2 ^ 63) \<le> sint (Balance (accounts s ! i)) + 2 * sint (Payment.Amount (payments s ! k)) \<and>
          sint (Balance (accounts s ! i)) + 2 * sint (Payment.Amount (payments s ! k)) < 2 ^ 63 \<longrightarrow>
            sint (Balance (accounts (snd (Reject (snd (Reject s paymentID)) paymentID)) ! i))
              = sint (Balance (accounts s ! i)) + 2 * sint (Payment.Amount (payments s ! k)))"
proof -
  let ?p = "payments s ! k"
  let ?s1 = "s\<lparr>payments := (payments s)[k := ?p\<lparr>Status := PaymentStatusFail\<rparr>],
                accounts := credit (accounts s) i (Payment.Amount ?p)\<rparr>"
  let ?s2 = "?s1\<lparr>payments := (payments ?s1)[k := (payments ?s1 ! k)\<lparr>Status := PaymentStatusFail\<rparr>],
                  accounts := credit (accounts ?s1) i (Payment.Amount ?p)\<rparr>"
  have fp: "findPayment (payments s) paymentID = Some k"
    using assms(1-3) by (rule findPayment_eq_Some)
  have fa: "findAccount (accounts s) (Payment.AccountID ?p) = Some i"
    using assms(4-6) by (rule findAccount_eq_Some)
  have first: "Reject s paymentID = (None, ?s1)"
    using fp fa by (simp add: Reject_def FindPaymentByID_def FindAccountByID_def)
  have second: "Reject ?s1 paymentID = (None, ?s2)"
    using fp fa assms(1) by (simp add: Reject_def FindPaymentByID_def FindAccountByID_def)
  have b1: "Balance (accounts ?s1 ! i) = Balance (accounts s ! i) + Payment.Amount ?p"
    using assms(4) by (simp add: Balance_credit)
  have b2: "Balance (accounts ?s2 ! i) = Balance (accounts s ! i) + 2 * Payment.Amount ?p"
    using assms(4) by (simp add: Balance_credit)
  have st: "Payment.Status (payments ?s1 ! k) = PaymentStatusFail"
    using assms(1) by simp
  have s1: "- (2 ^ 63) \<le> sint (Balance (accounts s ! i)) + sint (Payment.Amount ?p) \<and>
          sint (Balance (accounts s ! i)) + sint (Payment.Amount ?p) < 2 ^ 63 \<longrightarrow>
            sint (Balance (accounts ?s1 ! i))
              = sint (Balance (accounts s ! i)) + sint (Payment.Amount ?p)"
    unfolding b1 by (simp add: sint_add_no_wrap)
  have s2: "- (2 ^ 63) \<le> sint (Balance (accounts s ! i)) + 2 * sint (Payment.Amount ?p) \<and>
          sint (Balance (accounts s ! i)) + 2 * sint (Payment.Amount ?p) < 2 ^ 63 \<longrightarrow>
            sint (Balance (accounts ?s2 ! i))
              = sint (Balance (accounts s ! i)) + 2 * sint (Payment.Amount ?p)"
    unfolding b2 by (simp add: sint_add_twice_no_wrap)
  show ?thesis
    unfolding first snd_conv second fst_conv using b1 b2 st s1 s2 by blast
qed

theorem reject_refunds_witness:
  "Reject defaultTestService ''p1'' = (None, rejectedTestService) \<and>
   Payment.Status (payments (snd (Reject defaultTestService ''p1'')) ! 0) = PaymentStatusFail \<and>
   sint (Balance (accounts defaultTestService ! 0)) = 900000 \<and>
   sint (Payment.Amount (payments defaultTestService ! 0)) = 100000 \<and>
   sint (Balance (accounts (snd (Reject defaultTestService ''p1'')) ! 0)) = 1000000 \<and>
   fst (Reject (snd (Reject defaultTestService ''p1'')) ''p1'') = None \<and>
   sint (Balance (accounts (snd (Reject (snd (Reject defaultTestService ''p1'')) ''p1'')) ! 0)) = 1100000"
proof -
  have "Reject defaultTestService ''p1'' = (None, rejectedTestService)"
    using reject_refunds [of 0 defaultTestService "''p1''" 0]
    by (simp add: defaultTestService_eq rejectedTestService_def credit_def)
  moreover have "sint (Balance (accounts defaultTestService ! 0)) = 900000"
    and "sint (Payment.Amount (payments defaultTestService ! 0)) = 100000"
    by (simp_all add: defaultTestService_eq)
  ultimately show ?thesis
    using reject_refunds [of 0 defaultTestService "''p1''" 0]
    by (simp add: defaultTestService_eq)
qed

text \<open>
  Claim C4, as stated, has the balance go up by the amount in every state. After
  RegisterAccount, a deposit of the largest \<open>int64\<close>, a payment of 1 and a deposit of 1
  the balance is the largest \<open>int64\<close> again, and \<open>Reject\<close> of the payment takes it to the
  smallest one.
\<close>

theorem reject_wraps_counterexample:
  "fst (Reject overflowService ''p1'') = None \<and>
   sint (Balance (accounts overflowService ! 0)) = 9223372036854775807 \<and>
   sint (Payment.Amount (payments overflowService ! 0)) = 1 \<and>
   sint (Balance (accounts (snd (Reject overflowService ''p1'')) ! 0)) = - 9223372036854775808 \<and>
   sint (Balance (accounts (snd (Reject overflowService ''p1'')) ! 0))
     \<noteq> sint (Balance (accounts overflowService ! 0))
         + sint (Payment.Amount (payments overflowService ! 0))"
  by (simp add: overflowService_eq Reject_def FindPaymentByID_def FindAccountByID_def credit_def)

text \<open>
  Claim C10. When the service has a payment with the identifier (\<open>k\<close> the first such) and no
  account has that payment's account identifier, \<open>Reject\<close> returns \<open>ErrAccountNotFound\<close> and
  the service is the one it was called on: the payment keeps its status and no balance
  is written.
\<close>

theorem reject_account_missing:
  assumes "k < length (payments s)"
    and "Payment.ID (payments s ! k) = paymentID"
    and "\<forall>j < k. Payment.ID (payments s ! j) \<noteq> paymentID"
    and "\<forall>acc \<in> set (accounts s). Account.ID acc \<noteq> Payment.AccountID (payments s ! k)"
  shows "Reject s paymentID = (Some ErrAccountNotFound, s) \<and>
         Payment.Status (payments (snd (Reject s paymentID)) ! k) = Payment.Status (payments s ! k) \<and>
         accounts (snd (Reject s paymentID)) = accounts s"
proof -
  have "findPayment (payments s) paymentID = Some k"
    using assms(1-3) by (rule findPayment_eq_Some)
  moreover have "findAccount (accounts s) (Payment.AccountID (payments s ! k)) = None"
    using assms(4) by (simp add: findAccount_None)
  ultimately show ?thesis
    by (simp add: Reject_def FindPaymentByID_def FindAccountByID_def)
qed

theorem reject_account_missing_witness:
  "Reject orphanService ''p7'' = (Some ErrAccountNotFound, orphanService) \<and>
   Payment.Status (payments (snd (Reject orphanService ''p7'')) ! 0) = PaymentStatusInProgress \<and>
   accounts (snd (Reject orphanService ''p7'')) = accounts orphanService"
  using reject_account_missing [of 0 orphanService "''p7''"]
  by (simp add: orphanService_def)

section \<open>The contract of Pay\<close>








section \<open>Payment statuses under the core operations\<close>










section \<open>SumPaymentsWithProgress\<close>









section \<open>The partitioned aggregation: SumPayments and FilterPayments\<close>

declare sumWorker.simps [simp del] filterWorker.simps [simp del]

lemma sumWorker_eq:
  "0 \<le> j \<Longrightarrow>
     sumWorker ps j h acc =
       acc + (\<Sum>k = nat j ..< min (nat h) (length ps). Payment.Amount (ps ! k))"
proof (induction ps j h acc rule: sumWorker.induct)
  case (1 ps j h acc)
  show ?case
  proof (cases "j < h \<and> \<not> j > int (length ps) - 1")
    case True
    then have lt: "nat j < min (nat h) (length ps)" using "1.prems" by auto
    have "sumWorker ps j h acc = sumWorker ps (j + 1) h (acc + Payment.Amount (ps ! nat j))"
      using True by (subst sumWorker.simps) simp
    also have "\<dots> = (acc + Payment.Amount (ps ! nat j)) +
        (\<Sum>k = nat (j + 1) ..< min (nat h) (length ps). Payment.Amount (ps ! k))"
      using True "1.prems" by (intro "1.IH") auto
    also have "nat (j + 1) = Suc (nat j)" using "1.prems" by simp
    finally show ?thesis using lt by (simp add: sum.atLeast_Suc_lessThan add.assoc)
  next
    case False
    then have "min (nat h) (length ps) \<le> nat j" using "1.prems" by auto
    then show ?thesis using False by (subst sumWorker.simps) auto
  qed
qed

lemma partition_sum:
  fixes f :: "nat \<Rightarrow> 'a::comm_monoid_add"
  shows "(\<Sum>i = 0 ..< g. \<Sum>k = i * p ..< min ((i + 1) * p) n. f k) = (\<Sum>k = 0 ..< min (g * p) n. f k)"
proof (induction g)
  case 0
  show ?case by simp
next
  case (Suc g)
  show ?case
  proof (cases "g * p \<le> n")
    case True
    then have "min (g * p) n = g * p" "g * p \<le> min ((g + 1) * p) n" by simp_all
    then show ?thesis
      using Suc sum.atLeastLessThan_concat [of 0 "g * p" "min ((g + 1) * p) n" f] by simp
  next
    case False
    then have "min (g * p) n = n" "min ((g + 1) * p) n = n" "{g * p ..< n} = {}" by auto
    then show ?thesis using Suc by simp
  qed
qed

lemma partition_covers: "1 \<le> g \<Longrightarrow> min (g * (n div g + 1)) n = (n::nat)"
proof -
  assume "1 \<le> g"
  then have "n < g * (n div g + 1)"
    using dividend_less_times_div [of g n] by (simp add: algebra_simps)
  then show ?thesis by simp
qed

lemma fold_add_partial:
  fixes w :: "nat \<Rightarrow> Money"
  shows "fold (\<lambda>iteration sum. sum + w iteration) order acc = acc + sum_list (map w order)"
  by (induction order arbitrary: acc) (simp_all add: add.assoc)

lemma sum_list_map_order:
  fixes w :: "nat \<Rightarrow> 'a::comm_monoid_add"
  assumes "mset order = mset [0 ..< g]"
  shows "sum_list (map w order) = (\<Sum>i = 0 ..< g. w i)"
proof -
  have "sum_list (map w order) = sum_mset (image_mset w (mset order))"
    by (simp add: sum_mset_sum_list [symmetric])
  also have "\<dots> = sum_mset (image_mset w (mset [0 ..< g]))" by (simp only: assms)
  also have "\<dots> = sum_list (map w [0 ..< g])"
    by (simp add: sum_mset_sum_list [symmetric])
  also have "\<dots> = (\<Sum>i = 0 ..< g. w i)"
    by (simp add: interv_sum_list_conv_sum_set_nat)
  finally show ?thesis .
qed

lemma worker_bounds:
  fixes g :: int and n i :: nat
  assumes "1 \<le> g" and p: "p = int n div g + 1"
  shows "0 \<le> int i * p \<and> nat (int i * p) = i * (n div nat g + 1) \<and>
         nat (int i * p + p) = (i + 1) * (n div nat g + 1)"
proof -
  have p': "p = int (n div nat g + 1)"
    using assms(1) by (simp add: p zdiv_int)
  have a: "0 \<le> int i * p" unfolding p' by simp
  have "int i * p = int (i * (n div nat g + 1))" unfolding p' by (simp add: algebra_simps)
  then have b: "nat (int i * p) = i * (n div nat g + 1)" by (simp only: nat_int)
  have "int i * p + p = int ((i + 1) * (n div nat g + 1))" unfolding p' by (simp add: algebra_simps)
  then have c: "nat (int i * p + p) = (i + 1) * (n div nat g + 1)" by (simp only: nat_int)
  from a b c show ?thesis by blast
qed

lemma SumPayments_total:
  assumes "everyWorkerOnce goroutines order"
  shows "SumPayments s goroutines order = sum_list (map Payment.Amount (payments s))"
proof -
  define g where "g = (if goroutines < 1 then 1 else goroutines)"
  define n where "n = length (payments s)"
  define p where "p = int n div g + 1"
  define q where "q = n div nat g + 1"
  have g1: "1 \<le> g" by (simp add: g_def)
  have ord: "mset order = mset [0 ..< nat g]"
    using assms by (simp add: everyWorkerOnce_def g_def)
  let ?w = "\<lambda>iteration. sumWorker (payments s) (int iteration * p) (int iteration * p + p) 0"
  have w: "?w i = (\<Sum>k = i * q ..< min ((i + 1) * q) n. Payment.Amount (payments s ! k))" for i
    using worker_bounds [OF g1 p_def, of i]
    by (simp add: sumWorker_eq q_def n_def)
  have "SumPayments s goroutines order = sum_list (map ?w order)"
    by (simp add: SumPayments_def fold_add_partial g_def p_def n_def Let_def)
  also have "\<dots> = (\<Sum>i = 0 ..< nat g. ?w i)"
    using ord by (rule sum_list_map_order)
  also have "\<dots> = (\<Sum>i = 0 ..< nat g. \<Sum>k = i * q ..< min ((i + 1) * q) n.
                      Payment.Amount (payments s ! k))"
    by (simp only: w)
  also have "\<dots> = (\<Sum>k = 0 ..< min (nat g * q) n. Payment.Amount (payments s ! k))"
    by (rule partition_sum)
  also have "min (nat g * q) n = n"
    unfolding q_def using g1 by (intro partition_covers) simp
  also have "(\<Sum>k = 0 ..< n. Payment.Amount (payments s ! k)) = sum_list (map Payment.Amount (payments s))"
    unfolding n_def by (simp add: sum_list_sum_nth atLeast0LessThan)
  finally show ?thesis .
qed

lemma filterWorker_eq:
  "0 \<le> j \<Longrightarrow>
     filterWorker ps a j h acc =
       acc @ filter (\<lambda>p. Payment.AccountID p = a) (map ((!) ps) [nat j ..< min (nat h) (length ps)])"
proof (induction ps a j h acc rule: filterWorker.induct)
  case (1 ps a j h acc)
  show ?case
  proof (cases "j < h \<and> \<not> j > int (length ps) - 1")
    case True
    then have lt: "nat j < min (nat h) (length ps)" using "1.prems" by auto
    let ?acc' = "if Payment.AccountID (ps ! nat j) = a then acc @ [ps ! nat j] else acc"
    have "filterWorker ps a j h acc = filterWorker ps a (j + 1) h ?acc'"
      using True by (subst filterWorker.simps) simp
    also have "\<dots> = ?acc' @ filter (\<lambda>p. Payment.AccountID p = a)
                         (map ((!) ps) [nat (j + 1) ..< min (nat h) (length ps)])"
      using True "1.prems" by (intro "1.IH") auto
    also have "nat (j + 1) = Suc (nat j)" using "1.prems" by simp
    finally show ?thesis using lt by (simp add: upt_conv_Cons)
  next
    case False
    then have "min (nat h) (length ps) \<le> nat j" using "1.prems" by auto
    then show ?thesis using False by (subst filterWorker.simps) auto
  qed
qed

lemma partition_concat:
  "concat (map (\<lambda>i. [i * p ..< min ((i + 1) * p) n]) [0 ..< g]) = [0 ..< min (g * p) n]"
proof (induction g)
  case 0
  show ?case by simp
next
  case (Suc g)
  show ?case
  proof (cases "g * p \<le> n")
    case True
    then have m: "min (g * p) n = g * p" by simp
    have "g * p \<le> min ((g + 1) * p) n" using True by simp
    then obtain d where d: "min ((g + 1) * p) n = g * p + d"
      using le_Suc_ex by blast
    have "[0 ..< g * p + d] = [0 ..< g * p] @ [g * p ..< g * p + d]"
      by (rule upt_add_eq_append) simp
    then show ?thesis using Suc m d by simp
  next
    case False
    then have "min (g * p) n = n" "min ((g + 1) * p) n = n" "[g * p ..< n] = []" by auto
    then show ?thesis using Suc by simp
  qed
qed

lemma fold_append_partial:
  "fold (\<lambda>iteration found. found @ w iteration) order acc = acc @ concat (map w order)"
  by (induction order arbitrary: acc) simp_all

lemma mset_concat_order:
  assumes "mset order = mset order'"
  shows "mset (concat (map w order)) = mset (concat (map w order'))"
proof -
  have "mset (concat (map w xs)) = sum_mset (image_mset (\<lambda>i. mset (w i)) (mset xs))" for xs :: "'a list"
    by (induction xs) simp_all
  then show ?thesis by (simp only: assms)
qed

lemma FilterPayments_found:
  assumes "findAccount (accounts s) a = Some i" "everyWorkerOnce goroutines order"
  shows "\<exists>found. FilterPayments s a goroutines order = Inr found \<and>
           mset found = mset (filter (\<lambda>p. Payment.AccountID p = a) (payments s))"
proof -
  define g where "g = (if goroutines < 1 then 1 else goroutines)"
  define n where "n = length (payments s)"
  define p where "p = int n div g + 1"
  define q where "q = n div nat g + 1"
  have g1: "1 \<le> g" by (simp add: g_def)
  have ord: "mset order = mset [0 ..< nat g]"
    using assms(2) by (simp add: everyWorkerOnce_def g_def)
  let ?P = "\<lambda>p. Payment.AccountID p = a"
  let ?w = "\<lambda>iteration. filterWorker (payments s) a (int iteration * p) (int iteration * p + p) []"
  let ?idx = "\<lambda>i. [i * q ..< min ((i + 1) * q) n]"
  have w: "?w = (\<lambda>i. filter ?P (map ((!) (payments s)) (?idx i)))"
  proof
    fix i
    show "?w i = filter ?P (map ((!) (payments s)) (?idx i))"
      using worker_bounds [OF g1 p_def, of i]
      by (simp add: filterWorker_eq q_def n_def)
  qed
  have run: "FilterPayments s a goroutines order = Inr (concat (map ?w order))"
    using assms(1)
    by (simp add: FilterPayments_def FindAccountByID_def fold_append_partial g_def p_def n_def Let_def)
  have "mset (concat (map ?w order)) = mset (concat (map ?w [0 ..< nat g]))"
    using ord by (rule mset_concat_order)
  also have "concat (map ?w [0 ..< nat g]) =
      filter ?P (map ((!) (payments s)) (concat (map ?idx [0 ..< nat g])))"
    unfolding w by (simp add: filter_concat map_concat comp_def)
  also have "concat (map ?idx [0 ..< nat g]) = [0 ..< min (nat g * q) n]"
    by (rule partition_concat)
  also have "min (nat g * q) n = n"
    unfolding q_def using g1 by (intro partition_covers) simp
  also have "map ((!) (payments s)) [0 ..< n] = payments s"
    unfolding n_def by (rule map_nth)
  finally show ?thesis using run by simp
qed

text \<open>
  Claim C6. When no account has the identifier, \<open>FilterPayments\<close> returns
  \<open>ErrAccountNotFound\<close>, whatever the worker count and the order of the goroutines. When
  an account has it, for every worker count and every order in which the goroutines
  reach the mutex, it returns exactly the payments whose account identifier is the given
  one, as a set and with the same multiplicities; two calls with different worker counts
  or orders return the same payments up to their order.
\<close>

theorem filter_payments_contract:
  "((\<forall>acc \<in> set (accounts s). Account.ID acc \<noteq> accountID) \<longrightarrow>
      FilterPayments s accountID k order = Inl ErrAccountNotFound) \<and>
   ((\<exists>acc \<in> set (accounts s). Account.ID acc = accountID) \<and>
    everyWorkerOnce k order \<and> everyWorkerOnce k' order' \<longrightarrow>
      (\<exists>found found'.
         FilterPayments s accountID k order = Inr found \<and>
         FilterPayments s accountID k' order' = Inr found' \<and>
         set found = {p \<in> set (payments s). Payment.AccountID p = accountID} \<and>
         mset found = mset (filter (\<lambda>p. Payment.AccountID p = accountID) (payments s)) \<and>
         set found' = set found \<and> mset found' = mset found))"
proof (intro conjI impI)
  assume "\<forall>acc \<in> set (accounts s). Account.ID acc \<noteq> accountID"
  then have "findAccount (accounts s) accountID = None" by (simp add: findAccount_None)
  then show "FilterPayments s accountID k order = Inl ErrAccountNotFound"
    by (simp add: FilterPayments_def FindAccountByID_def)
next
  assume a: "(\<exists>acc \<in> set (accounts s). Account.ID acc = accountID) \<and>
    everyWorkerOnce k order \<and> everyWorkerOnce k' order'"
  then have "findAccount (accounts s) accountID \<noteq> None" by (simp add: findAccount_None)
  then obtain i where i: "findAccount (accounts s) accountID = Some i" by blast
  obtain found where f: "FilterPayments s accountID k order = Inr found"
      "mset found = mset (filter (\<lambda>p. Payment.AccountID p = accountID) (payments s))"
    using FilterPayments_found [OF i, of k order] a by blast
  obtain found' where f': "FilterPayments s accountID k' order' = Inr found'"
      "mset found' = mset (filter (\<lambda>p. Payment.AccountID p = accountID) (payments s))"
    using FilterPayments_found [OF i, of k' order'] a by blast
  have "set found = set (filter (\<lambda>p. Payment.AccountID p = accountID) (payments s))"
    using f(2) by (rule mset_eq_setD)
  moreover have "set found' = set found"
    using f(2) f'(2) by (intro mset_eq_setD) simp
  ultimately show "\<exists>found found'.
         FilterPayments s accountID k order = Inr found \<and>
         FilterPayments s accountID k' order' = Inr found' \<and>
         set found = {p \<in> set (payments s). Payment.AccountID p = accountID} \<and>
         mset found = mset (filter (\<lambda>p. Payment.AccountID p = accountID) (payments s)) \<and>
         set found' = set found \<and> mset found' = mset found"
    using f f' by auto
qed

lemma fillData_eq:
  "fillData =
     \<lparr>nextAccountID = 3,
      accounts = [\<lparr>Account.ID = 1, Phone = ''+992000000001'', Balance = 999972\<rparr>,
                  \<lparr>Account.ID = 2, Phone = ''+992000000002'', Balance = 1999992\<rparr>,
                  \<lparr>Account.ID = 3, Phone = ''+992000000003'', Balance = 2999970\<rparr>],
      payments = [\<lparr>Payment.ID = ''p01'', AccountID = 1, Amount = 1, Category = ''food'', Status = PaymentStatusInProgress\<rparr>,
                  \<lparr>Payment.ID = ''p02'', AccountID = 1, Amount = 2, Category = ''mobile'', Status = PaymentStatusInProgress\<rparr>,
                  \<lparr>Payment.ID = ''p03'', AccountID = 1, Amount = 3, Category = ''transport'', Status = PaymentStatusInProgress\<rparr>,
                  \<lparr>Payment.ID = ''p04'', AccountID = 1, Amount = 4, Category = ''mobile'', Status = PaymentStatusInProgress\<rparr>,
                  \<lparr>Payment.ID = ''p05'', AccountID = 1, Amount = 5, Category = ''food'', Status = PaymentStatusInProgress\<rparr>,
                  \<lparr>Payment.ID = ''p06'', AccountID = 1, Amount = 6, Category = ''auto'', Status = PaymentStatusInProgress\<rparr>,
                  \<lparr>Payment.ID = ''p07'', AccountID = 1, Amount = 7, Category = ''bank'', Status = PaymentStatusInProgress\<rparr>,
                  \<lparr>Payment.ID = ''p08'', AccountID = 2, Amount = 8, Category = ''mobile'', Status = PaymentStatusInProgress\<rparr>,
                  \<lparr>Payment.ID = ''p09'', AccountID = 3, Amount = 9, Category = ''auto'', Status = PaymentStatusInProgress\<rparr>,
                  \<lparr>Payment.ID = ''p10'', AccountID = 3, Amount = 10, Category = ''food'', Status = PaymentStatusInProgress\<rparr>,
                  \<lparr>Payment.ID = ''p11'', AccountID = 3, Amount = 11, Category = ''mobile'', Status = PaymentStatusInProgress\<rparr>],
      favorites = []\<rparr>"
  by (simp add: fillData_def emptyService_def RegisterAccount_def Deposit_def Pay_def
      credit_def debit_def Let_def)


text \<open>
  Claim C3. For every worker count \<open>k \<ge> 1\<close> and every order in which the \<open>k\<close> goroutines
  reach the mutex, \<open>SumPayments\<close> returns what it returns with one worker, the sum of all
  amounts (in \<open>int64\<close> arithmetic). Worker \<open>i\<close> sums the payments at the indices from
  \<open>i * (n div k + 1)\<close> up to, not including, that plus \<open>n div k + 1\<close>, cut at the number
  \<open>n\<close> of payments, and these ranges, one after the other, are the indices \<open>0 .. n - 1\<close>,
  each once. For payments with the amounts 1 to 11 the result is 66.
\<close>

theorem sum_payments_workers:
  assumes "1 \<le> k" and "everyWorkerOnce k order"
  shows "SumPayments s k order = SumPayments s 1 [0] \<and>
         SumPayments s k order = sum_list (map Payment.Amount (payments s)) \<and>
         (\<forall>i. sumWorker (payments s)
                (int i * (int (length (payments s)) div k + 1))
                (int i * (int (length (payments s)) div k + 1) + (int (length (payments s)) div k + 1)) 0
              = (\<Sum>j \<leftarrow> [i * (length (payments s) div nat k + 1) ..<
                          min ((i + 1) * (length (payments s) div nat k + 1)) (length (payments s))].
                   Payment.Amount (payments s ! j))) \<and>
         concat (map (\<lambda>i. [i * (length (payments s) div nat k + 1) ..<
                            min ((i + 1) * (length (payments s) div nat k + 1)) (length (payments s))])
                   [0 ..< nat k])
           = [0 ..< length (payments s)] \<and>
         (map Payment.Amount (payments s) = [1, 2, 3, 4, 5, 6, 7, 8, 9, 10, 11] \<longrightarrow>
            SumPayments s k order = 66)"
proof -
  let ?n = "length (payments s)"
  let ?q = "?n div nat k + 1"
  have one: "everyWorkerOnce 1 [0]" by (simp add: everyWorkerOnce_def)
  have total: "SumPayments s k order = sum_list (map Payment.Amount (payments s))"
    using assms(2) by (rule SumPayments_total)
  have total1: "SumPayments s 1 [0] = sum_list (map Payment.Amount (payments s))"
    using one by (rule SumPayments_total)
  have worker: "sumWorker (payments s) (int i * (int ?n div k + 1))
                  (int i * (int ?n div k + 1) + (int ?n div k + 1)) 0
              = (\<Sum>j \<leftarrow> [i * ?q ..< min ((i + 1) * ?q) ?n]. Payment.Amount (payments s ! j))" for i
    using worker_bounds [OF assms(1) refl, of i ?n]
    by (simp add: sumWorker_eq interv_sum_list_conv_sum_set_nat)
  have "concat (map (\<lambda>i. [i * ?q ..< min ((i + 1) * ?q) ?n]) [0 ..< nat k]) = [0 ..< min (nat k * ?q) ?n]"
    by (rule partition_concat)
  moreover have "min (nat k * ?q) ?n = ?n"
    using assms(1) by (intro partition_covers) simp
  ultimately have cover: "concat (map (\<lambda>i. [i * ?q ..< min ((i + 1) * ?q) ?n]) [0 ..< nat k]) = [0 ..< ?n]"
    by simp
  have "map Payment.Amount (payments s) = [1, 2, 3, 4, 5, 6, 7, 8, 9, 10, 11] \<longrightarrow>
            SumPayments s k order = 66"
    unfolding total by simp
  with total total1 worker cover show ?thesis by simp
qed

theorem sum_payments_workers_witness:
  "(1::int) \<le> 3 \<and> everyWorkerOnce 3 [2, 0, 1] \<and>
   SumPayments fillData 3 [2, 0, 1] = SumPayments fillData 1 [0] \<and>
   SumPayments fillData 3 [2, 0, 1] = 66"
proof -
  have k: "(1::int) \<le> 3" by simp
  have h: "everyWorkerOnce 3 [2, 0, 1]"
    unfolding everyWorkerOnce_def by code_simp
  have amounts: "map Payment.Amount (payments fillData) = [1, 2, 3, 4, 5, 6, 7, 8, 9, 10, 11]"
    by (simp add: fillData_eq)
  note t = sum_payments_workers [OF k h, of fillData]
  from t have a: "SumPayments fillData 3 [2, 0, 1] = SumPayments fillData 1 [0]"
    by (rule conjunct1)
  from t amounts have b: "SumPayments fillData 3 [2, 0, 1] = 66" by blast
  from k h a b show ?thesis by blast
qed

theorem filter_payments_contract_witness:
  "FilterPayments fillData 7 2 [1, 0] = Inl ErrAccountNotFound \<and>
   everyWorkerOnce 2 [1, 0] \<and> everyWorkerOnce 5 [4, 1, 0, 3, 2] \<and>
   (\<exists>found found'.
      FilterPayments fillData 3 2 [1, 0] = Inr found \<and>
      FilterPayments fillData 3 5 [4, 1, 0, 3, 2] = Inr found' \<and>
      set found = set (drop 8 (payments fillData)) \<and>
      mset found = mset (drop 8 (payments fillData)) \<and>
      set found' = set found \<and> mset found' = mset found)"
proof -
  have h: "everyWorkerOnce 2 [1, 0]" "everyWorkerOnce 5 [4, 1, 0, 3, 2]"
    unfolding everyWorkerOnce_def by code_simp+
  have none: "\<forall>acc \<in> set (accounts fillData). Account.ID acc \<noteq> 7"
    by (simp add: fillData_eq)
  have some: "\<exists>acc \<in> set (accounts fillData). Account.ID acc = 3"
    by (simp add: fillData_eq)
  have flt: "filter (\<lambda>p. Payment.AccountID p = 3) (payments fillData) = drop 8 (payments fillData)"
    by (simp add: fillData_eq)
  have "FilterPayments fillData 7 2 [1, 0] = Inl ErrAccountNotFound"
    using filter_payments_contract [of fillData 7 2 "[1, 0]"] none by blast
  moreover have "\<exists>found found'.
      FilterPayments fillData 3 2 [1, 0] = Inr found \<and>
      FilterPayments fillData 3 5 [4, 1, 0, 3, 2] = Inr found' \<and>
      set found = set (drop 8 (payments fillData)) \<and>
      mset found = mset (drop 8 (payments fillData)) \<and>
      set found' = set found \<and> mset found' = mset found"
    using filter_payments_contract [of fillData 3 2 "[1, 0]" 5 "[4, 1, 0, 3, 2]"] some h
    unfolding flt [symmetric] by auto
  ultimately show ?thesis using h by blast
qed

section \<open>The balance after deposits, payments and rejections\<close>

lemma map_of_made:
  "findPayment ps pid = Some k \<Longrightarrow> map_of (made ps) pid = Some (Payment.Amount (ps ! k))"
  by (induction ps arbitrary: k) (auto simp: made_def split: if_splits)

lemma made_set_status [simp]:
  "made (ps[k := (ps ! k)\<lparr>Status := st\<rparr>]) = made ps"
  by (cases "k < length ps")
    (simp_all add: made_def map_update list_update_same_conv list_update_beyond)

lemma made_append [simp]: "made (ps @ qs) = made ps @ made qs"
  by (simp add: made_def)

lemma applyOp_Deposit:
  assumes "applyOp a s (DepositOp amount) = Some s'" "findAccount (accounts s) a = Some i"
  shows "s' = s\<lparr>accounts := credit (accounts s) i amount\<rparr>"
  using assms by (auto simp: Deposit_def split: if_splits)

lemma applyOp_Pay:
  assumes "applyOp a s (PayOp amount category pid) = Some s'" "findAccount (accounts s) a = Some i"
  shows "s' = s\<lparr>accounts := debit (accounts s) i amount,
                  payments := payments s @
                    [\<lparr>Payment.ID = pid, AccountID = a, Amount = amount, Category = category,
                      Status = PaymentStatusInProgress\<rparr>]\<rparr>"
  using assms by (auto simp: Pay_def Let_def split: if_splits)

lemma applyOp_Reject:
  assumes "applyOp a s (RejectOp pid) = Some s'"
  shows "\<exists>k i'. findPayment (payments s) pid = Some k \<and>
           findAccount (accounts s) (Payment.AccountID (payments s ! k)) = Some i' \<and>
           s' = s\<lparr>payments := (payments s)[k := (payments s ! k)\<lparr>Status := PaymentStatusFail\<rparr>],
                   accounts := credit (accounts s) i' (Payment.Amount (payments s ! k))\<rparr>"
  using assms
  by (auto simp: Reject_def FindPaymentByID_def FindAccountByID_def split: option.splits)

lemma balance_after_ops:
  assumes "findAccount (accounts s) a = Some i"
    and "\<forall>p \<in> set (payments s). Payment.ID p \<in> set (rejectedIDs ops) \<longrightarrow> Payment.AccountID p = a"
    and "applyOps a s ops = Some s'"
  shows "findAccount (accounts s') a = Some i \<and>
         Balance (accounts s' ! i) =
           Balance (accounts s ! i) + deposited ops - paid ops + refundedFrom (made (payments s)) ops"
  using assms
proof (induction ops arbitrary: s)
  case Nil
  then show ?case by simp
next
  case (Cons x ops)
  from Cons.prems(3) obtain s1 where s1: "applyOp a s x = Some s1" "applyOps a s1 ops = Some s'"
    by (auto split: option.splits)
  have i: "i < length (accounts s)" using Cons.prems(1) by (simp add: findAccount_Some)
  show ?case
  proof (cases x)
    case (DepositOp amount)
    have e: "s1 = s\<lparr>accounts := credit (accounts s) i amount\<rparr>"
      using s1(1) Cons.prems(1) unfolding DepositOp by (rule applyOp_Deposit)
    have "findAccount (accounts s1) a = Some i" using Cons.prems(1) by (simp add: e)
    moreover have "\<forall>p \<in> set (payments s1).
        Payment.ID p \<in> set (rejectedIDs ops) \<longrightarrow> Payment.AccountID p = a"
      using Cons.prems(2) by (simp add: e DepositOp)
    ultimately have "findAccount (accounts s') a = Some i \<and>
         Balance (accounts s' ! i) =
           Balance (accounts s1 ! i) + deposited ops - paid ops + refundedFrom (made (payments s1)) ops"
      using s1(2) by (rule Cons.IH)
    moreover have "Balance (accounts s1 ! i) = Balance (accounts s ! i) + amount"
      using i by (simp add: e Balance_credit)
    moreover have "payments s1 = payments s" by (simp add: e)
    ultimately show ?thesis by (simp add: DepositOp)
  next
    case (PayOp amount category pid)
    let ?p = "\<lparr>Payment.ID = pid, AccountID = a, Amount = amount, Category = category,
                Status = PaymentStatusInProgress\<rparr>"
    have e: "s1 = s\<lparr>accounts := debit (accounts s) i amount, payments := payments s @ [?p]\<rparr>"
      using s1(1) Cons.prems(1) unfolding PayOp by (rule applyOp_Pay)
    have "findAccount (accounts s1) a = Some i" using Cons.prems(1) by (simp add: e)
    moreover have "\<forall>p \<in> set (payments s1).
        Payment.ID p \<in> set (rejectedIDs ops) \<longrightarrow> Payment.AccountID p = a"
      using Cons.prems(2) by (auto simp: e PayOp)
    ultimately have "findAccount (accounts s') a = Some i \<and>
         Balance (accounts s' ! i) =
           Balance (accounts s1 ! i) + deposited ops - paid ops + refundedFrom (made (payments s1)) ops"
      using s1(2) by (rule Cons.IH)
    moreover have "Balance (accounts s1 ! i) = Balance (accounts s ! i) - amount"
      using i by (simp add: e Balance_debit)
    moreover have "made (payments s1) = made (payments s) @ [(pid, amount)]"
      by (simp add: e made_def)
    ultimately show ?thesis by (simp add: PayOp)
  next
    case (RejectOp pid)
    from s1(1) obtain k i' where k: "findPayment (payments s) pid = Some k"
      and i': "findAccount (accounts s) (Payment.AccountID (payments s ! k)) = Some i'"
      and e: "s1 = s\<lparr>payments := (payments s)[k := (payments s ! k)\<lparr>Status := PaymentStatusFail\<rparr>],
                      accounts := credit (accounts s) i' (Payment.Amount (payments s ! k))\<rparr>"
      unfolding RejectOp using applyOp_Reject by blast
    have kk: "k < length (payments s)" "Payment.ID (payments s ! k) = pid"
      using k by (simp_all add: findPayment_Some)
    then have "Payment.AccountID (payments s ! k) = a"
      using Cons.prems(2) by (simp add: RejectOp)
    with i' Cons.prems(1) have ii: "i' = i" by simp
    have "findAccount (accounts s1) a = Some i" using Cons.prems(1) by (simp add: e)
    moreover have "\<forall>p \<in> set (payments s1).
        Payment.ID p \<in> set (rejectedIDs ops) \<longrightarrow> Payment.AccountID p = a"
    proof
      fix p assume "p \<in> set (payments s1)"
      then have "p \<in> insert ((payments s ! k)\<lparr>Status := PaymentStatusFail\<rparr>) (set (payments s))"
        unfolding e using set_update_subset_insert by fastforce
      then show "Payment.ID p \<in> set (rejectedIDs ops) \<longrightarrow> Payment.AccountID p = a"
        using Cons.prems(2) kk \<open>Payment.AccountID (payments s ! k) = a\<close>
        by (auto simp: RejectOp)
    qed
    ultimately have "findAccount (accounts s') a = Some i \<and>
         Balance (accounts s' ! i) =
           Balance (accounts s1 ! i) + deposited ops - paid ops + refundedFrom (made (payments s1)) ops"
      using s1(2) by (rule Cons.IH)
    moreover have "Balance (accounts s1 ! i) = Balance (accounts s ! i) + Payment.Amount (payments s ! k)"
      using i by (simp add: e ii Balance_credit)
    moreover have "made (payments s1) = made (payments s)" by (simp add: e)
    moreover have "map_of (made (payments s)) pid = Some (Payment.Amount (payments s ! k))"
      using k by (rule map_of_made)
    ultimately show ?thesis by (simp add: RejectOp)
  qed
qed

lemma refundedFrom_prefix:
  "fst ` set pre \<inter> set (rejectedIDs ops) = {} \<Longrightarrow>
     refundedFrom (pre @ xs) ops = refundedFrom xs ops"
proof (induction xs ops rule: refundedFrom.induct)
  case (1 xs)
  show ?case by simp
next
  case (2 xs amount ops)
  then show ?case by simp
next
  case (3 xs amount category pid ops)
  then show ?case by simp
next
  case (4 xs pid ops)
  then have "pid \<notin> fst ` set pre" by auto
  then have "map_of pre pid = None" by (simp add: map_of_eq_None_iff)
  then have "map_of (pre @ xs) pid = map_of xs pid" by (simp add: map_add_def)
  with 4 show ?case by simp
qed

lemma registeredService_eq:
  "registeredService =
     \<lparr>nextAccountID = 1,
      accounts = [\<lparr>Account.ID = 1, Phone = ''+992000000001'', Balance = 0\<rparr>],
      payments = [], favorites = []\<rparr>"
  by (simp add: registeredService_def RegisterAccount_def emptyService_def Let_def)

text \<open>
  Claim C1, as amended. Take an account (\<open>i\<close> the first one with its identifier) whose
  balance is zero, as registration leaves it, and a sequence of deposits, payments and
  rejections on it that all succeed, the rejections being of payments made in the
  sequence (no earlier payment has a rejected identifier). Then the final balance is the
  sum of all deposited amounts, minus the sum of the amounts of all payments made,
  rejected or not, plus the sum of the amounts of the rejected payments, counted once per
  rejecting call. The sums are those of \<open>int64\<close>.
\<close>

theorem balance_of_account:
  assumes "i < length (accounts s)"
    and "Account.ID (accounts s ! i) = a"
    and "\<forall>j < i. Account.ID (accounts s ! j) \<noteq> a"
    and "Balance (accounts s ! i) = 0"
    and "\<forall>p \<in> set (payments s). Payment.ID p \<notin> set (rejectedIDs ops)"
    and "applyOps a s ops = Some s'"
  shows "i < length (accounts s') \<and> Account.ID (accounts s' ! i) = a \<and>
         Balance (accounts s' ! i) = deposited ops - paid ops + refunded ops"
proof -
  have fa: "findAccount (accounts s) a = Some i"
    using assms(1-3) by (rule findAccount_eq_Some)
  have inv: "\<forall>p \<in> set (payments s).
               Payment.ID p \<in> set (rejectedIDs ops) \<longrightarrow> Payment.AccountID p = a"
    using assms(5) by blast
  from balance_after_ops [OF fa inv assms(6)]
  have fa': "findAccount (accounts s') a = Some i"
    and bal: "Balance (accounts s' ! i) =
           Balance (accounts s ! i) + deposited ops - paid ops + refundedFrom (made (payments s)) ops"
    by blast+
  have "fst ` set (made (payments s)) \<inter> set (rejectedIDs ops) = {}"
    using assms(5) by (auto simp: made_def)
  then have "refundedFrom (made (payments s) @ []) ops = refundedFrom [] ops"
    by (rule refundedFrom_prefix)
  then have "refundedFrom (made (payments s)) ops = refunded ops"
    by (simp add: refunded_def)
  with bal assms(4) have "Balance (accounts s' ! i) = deposited ops - paid ops + refunded ops"
    by simp
  with fa' show ?thesis by (simp add: findAccount_Some)
qed

theorem balance_of_account_witness:
  "applyOps 2 (snd (RegisterAccount defaultTestService ''+992000000002''))
     [DepositOp 500, PayOp 200 ''food'' ''p2'', RejectOp ''p2'', PayOp 7 ''auto'' ''p3'', RejectOp ''p2'']
     = Some \<lparr>nextAccountID = 2,
             accounts = [\<lparr>Account.ID = 1, Phone = ''+992000000001'', Balance = 900000\<rparr>,
                         \<lparr>Account.ID = 2, Phone = ''+992000000002'', Balance = 693\<rparr>],
             payments = [\<lparr>Payment.ID = ''p1'', AccountID = 1, Amount = 100000, Category = ''auto'',
                          Status = PaymentStatusInProgress\<rparr>,
                         \<lparr>Payment.ID = ''p2'', AccountID = 2, Amount = 200, Category = ''food'',
                          Status = PaymentStatusFail\<rparr>,
                         \<lparr>Payment.ID = ''p3'', AccountID = 2, Amount = 7, Category = ''auto'',
                          Status = PaymentStatusInProgress\<rparr>],
             favorites = []\<rparr> \<and>
   deposited [DepositOp 500, PayOp 200 ''food'' ''p2'', RejectOp ''p2'', PayOp 7 ''auto'' ''p3'', RejectOp ''p2'']
     - paid [DepositOp 500, PayOp 200 ''food'' ''p2'', RejectOp ''p2'', PayOp 7 ''auto'' ''p3'', RejectOp ''p2'']
     + refunded [DepositOp 500, PayOp 200 ''food'' ''p2'', RejectOp ''p2'', PayOp 7 ''auto'' ''p3'', RejectOp ''p2'']
     = 693"
proof -
  let ?ops = "[DepositOp 500, PayOp 200 ''food'' ''p2'', RejectOp ''p2'', PayOp 7 ''auto'' ''p3'',
               RejectOp ''p2'']"
  let ?s = "snd (RegisterAccount defaultTestService ''+992000000002'')"
  let ?s' = "\<lparr>nextAccountID = 2,
             accounts = [\<lparr>Account.ID = 1, Phone = ''+992000000001'', Balance = 900000\<rparr>,
                         \<lparr>Account.ID = 2, Phone = ''+992000000002'', Balance = 693\<rparr>],
             payments = [\<lparr>Payment.ID = ''p1'', AccountID = 1, Amount = 100000, Category = ''auto'',
                          Status = PaymentStatusInProgress\<rparr>,
                         \<lparr>Payment.ID = ''p2'', AccountID = 2, Amount = 200, Category = ''food'',
                          Status = PaymentStatusFail\<rparr>,
                         \<lparr>Payment.ID = ''p3'', AccountID = 2, Amount = 7, Category = ''auto'',
                          Status = PaymentStatusInProgress\<rparr>],
             favorites = []\<rparr>"
  have s: "?s = \<lparr>nextAccountID = 2,
             accounts = [\<lparr>Account.ID = 1, Phone = ''+992000000001'', Balance = 900000\<rparr>,
                         \<lparr>Account.ID = 2, Phone = ''+992000000002'', Balance = 0\<rparr>],
             payments = [\<lparr>Payment.ID = ''p1'', AccountID = 1, Amount = 100000, Category = ''auto'',
                          Status = PaymentStatusInProgress\<rparr>],
             favorites = []\<rparr>"
    by (simp add: defaultTestService_eq RegisterAccount_def Let_def)
  have run: "applyOps 2 ?s ?ops = Some ?s'"
    unfolding s
    by (simp add: Deposit_def Pay_def Reject_def FindPaymentByID_def
        FindAccountByID_def credit_def debit_def Let_def)
  have "Balance (accounts ?s' ! 1) = deposited ?ops - paid ?ops + refunded ?ops"
    using balance_of_account [of 1 ?s 2 ?ops ?s'] run
    unfolding s by simp
  then have "deposited ?ops - paid ?ops + refunded ?ops = 693" by simp
  with run show ?thesis by simp
qed

text \<open>
  Claim C1, as stated, subtracts the payments that were never rejected only. After a
  deposit of 10_000_00, a payment of 1_000_00 and its rejection the balance is
  10_000_00 again, as \<open>TestService_Reject_success\<close> has it, while the stated sum is
  10_000_00 - 0 + 1_000_00.
\<close>

theorem balance_claim_counterexample:
  "applyOps 1 registeredService [DepositOp 1000000, PayOp 100000 ''auto'' ''p1'', RejectOp ''p1'']
     = Some rejectedTestService \<and>
   Balance (accounts rejectedTestService ! 0) = 1000000 \<and>
   deposited [DepositOp 1000000, PayOp 100000 ''auto'' ''p1'', RejectOp ''p1'']
     - paidNeverRejected [DepositOp 1000000, PayOp 100000 ''auto'' ''p1'', RejectOp ''p1'']
     + refunded [DepositOp 1000000, PayOp 100000 ''auto'' ''p1'', RejectOp ''p1'']
     = 1100000 \<and>
   Balance (accounts rejectedTestService ! 0) \<noteq>
     deposited [DepositOp 1000000, PayOp 100000 ''auto'' ''p1'', RejectOp ''p1'']
     - paidNeverRejected [DepositOp 1000000, PayOp 100000 ''auto'' ''p1'', RejectOp ''p1'']
     + refunded [DepositOp 1000000, PayOp 100000 ''auto'' ''p1'', RejectOp ''p1'']"
proof -
  let ?ops = "[DepositOp 1000000, PayOp 100000 ''auto'' ''p1'', RejectOp ''p1'']"
  have run: "applyOps 1 registeredService ?ops = Some rejectedTestService"
    by (simp add: registeredService_eq rejectedTestService_def Deposit_def Pay_def Reject_def
        FindPaymentByID_def FindAccountByID_def credit_def debit_def Let_def)
  have bal: "Balance (accounts rejectedTestService ! 0) = 1000000"
    by (simp add: rejectedTestService_def)
  have claimed: "deposited ?ops - paidNeverRejected ?ops + refunded ?ops = 1100000"
    by (simp add: paidNeverRejected_def refunded_def)
  have "(1000000 :: Money) \<noteq> 1100000" by simp
  with run bal claimed show ?thesis by simp
qed

end
